theory Spec2Isabelle
  imports Main "HOL-Library.Sublist"
begin

section \<open>Strings and POSIX paths as the command server uses them\<close>

text \<open>
  The command-execution server (mcp-cmd-exec/src/index.ts) works on JavaScript strings.
  They are modelled as \<^typ>\<open>string\<close>; the only characters the code inspects are the
  space, the slash, the dot and the tilde.
\<close>

text \<open>\<^verbatim>\<open>s.split(c)\<close> for a one-character separator: every occurrence of the
  separator ends a piece, so the result is never empty and may hold empty pieces.\<close>

fun js_split :: "char \<Rightarrow> string \<Rightarrow> string list" where
  "js_split c [] = [[]]"
| "js_split c (x # xs) =
     (if x = c then [] # js_split c xs
      else (case js_split c xs of
              [] \<Rightarrow> [[x]]
            | y # ys \<Rightarrow> (x # y) # ys))"

text \<open>\<^verbatim>\<open>pieces.join(sep)\<close>.\<close>

fun js_join :: "string \<Rightarrow> string list \<Rightarrow> string" where
  "js_join sep [] = []"
| "js_join sep [x] = x"
| "js_join sep (x # y # ys) = x @ sep @ js_join sep (y # ys)"

text \<open>\<^verbatim>\<open>s.startsWith(t)\<close>: \<open>t\<close> is a prefix of \<open>s\<close>, character by character.\<close>

definition startsWith :: "string \<Rightarrow> string \<Rightarrow> bool" where
  "startsWith s t = prefix t s"

text \<open>
  The path functions are those of Node's \<^verbatim>\<open>path\<close> module on a POSIX host (the module
  is part of the runtime, not of the repository; the definitions follow its
  \<^verbatim>\<open>posix.resolve\<close>, \<^verbatim>\<open>posix.normalize\<close> and \<^verbatim>\<open>posix.join\<close>, case by case).
  \<^verbatim>\<open>normalizeString\<close> walks the segments between slashes: an empty segment and
  \<^verbatim>\<open>.\<close> are dropped, \<^verbatim>\<open>..\<close> removes the last kept segment (or is kept, when the path
  is relative and nothing is left to remove), every other segment is kept. The kept
  segments are held newest first.
\<close>

fun normalize_segments :: "bool \<Rightarrow> string list \<Rightarrow> string list \<Rightarrow> string list" where
  "normalize_segments allowAboveRoot res [] = res"
| "normalize_segments allowAboveRoot res (seg # segs) =
     (if seg = [] \<or> seg = ''.'' then normalize_segments allowAboveRoot res segs
      else if seg = ''..'' then
        (case res of
           [] \<Rightarrow> normalize_segments allowAboveRoot
                   (if allowAboveRoot then [''..''] else []) segs
         | lastSeg # rest \<Rightarrow>
             if lastSeg \<noteq> ''..'' then normalize_segments allowAboveRoot rest segs
             else normalize_segments allowAboveRoot
                    (if allowAboveRoot then ''..'' # res else res) segs)
      else normalize_segments allowAboveRoot (seg # res) segs)"

definition normalizeString :: "string \<Rightarrow> bool \<Rightarrow> string" where
  "normalizeString path allowAboveRoot =
     js_join ''/'' (rev (normalize_segments allowAboveRoot [] (js_split CHR ''/'' path)))"

definition isAbsolute :: "string \<Rightarrow> bool" where
  "isAbsolute path = (case path of [] \<Rightarrow> False | c # _ \<Rightarrow> c = CHR ''/'')"

text \<open>\<^verbatim>\<open>path.resolve(p)\<close> with one argument: the argument, and the current directory
  before it when the argument is not absolute; empty strings are skipped.\<close>

definition path_resolve :: "string \<Rightarrow> string \<Rightarrow> string" where
  "path_resolve cwd p =
     (let r1 = (if p = [] then [] else p @ ''/'');
          (resolvedPath, resolvedAbsolute) =
             (if isAbsolute p then (r1, True)
              else if cwd = [] then (r1, False)
              else (cwd @ ''/'' @ r1, isAbsolute cwd));
          n = normalizeString resolvedPath (\<not> resolvedAbsolute)
      in if resolvedAbsolute then ''/'' @ n
         else if n \<noteq> [] then n else ''.'')"

text \<open>\<^verbatim>\<open>path.normalize(p)\<close>.\<close>

definition path_normalize :: "string \<Rightarrow> string" where
  "path_normalize path =
     (if path = [] then ''.''
      else
        (let trailingSeparator = (last path = CHR ''/'');
             n = normalizeString path (\<not> isAbsolute path)
         in if n = [] then
              (if isAbsolute path then ''/''
               else if trailingSeparator then ''./'' else ''.'')
            else (if isAbsolute path then ''/'' else []) @ n
                 @ (if trailingSeparator then ''/'' else [])))"

text \<open>\<^verbatim>\<open>path.join(a, b, ...)\<close>: the non-empty arguments joined by a slash, normalized.\<close>

definition path_join :: "string list \<Rightarrow> string" where
  "path_join args =
     (let parts = filter (\<lambda>a. a \<noteq> []) args
      in if parts = [] then ''.'' else path_normalize (js_join ''/'' parts))"

section \<open>The allowed directories and the security check\<close>

text \<open>
  Lines 34--50: each command-line argument becomes an allowed directory, with a leading
  tilde replaced by the home directory, resolved and normalized. Without arguments the
  current directory is the only allowed directory.
\<close>

definition allowedDirectory :: "string \<Rightarrow> string \<Rightarrow> string \<Rightarrow> string" where
  "allowedDirectory homedir cwd dir =
     path_normalize
       (path_resolve cwd
          (if startsWith dir ''~'' then path_join [homedir, drop 1 dir] else dir))"

definition allowedDirectories :: "string \<Rightarrow> string \<Rightarrow> string list \<Rightarrow> string list" where
  "allowedDirectories homedir cwd args =
     (if length args > 0 then map (allowedDirectory homedir cwd) args else [cwd])"

text \<open>Lines 53--56: the requested path is resolved and normalized (no tilde handling
  here), and accepted when some allowed directory is a string prefix of it.\<close>

definition normalizedPath :: "string \<Rightarrow> string \<Rightarrow> string" where
  "normalizedPath cwd requestedPath = path_normalize (path_resolve cwd requestedPath)"

definition isPathAllowed :: "string list \<Rightarrow> string \<Rightarrow> string \<Rightarrow> bool" where
  "isPathAllowed dirs cwd requestedPath =
     list_ex (\<lambda>dir. startsWith (normalizedPath cwd requestedPath) dir) dirs"

text \<open>
  The specification's reading of the same check, for comparison: the normalized path is
  an allowed directory or lies below one, segment by segment.
\<close>

definition path_segments :: "string \<Rightarrow> string list" where
  "path_segments p = filter (\<lambda>seg. seg \<noteq> []) (js_split CHR ''/'' p)"

definition spec_descendant_or_equal :: "string \<Rightarrow> string \<Rightarrow> bool" where
  "spec_descendant_or_equal root p = prefix (path_segments root) (path_segments p)"

definition spec_isAllowed :: "string list \<Rightarrow> string \<Rightarrow> string \<Rightarrow> bool" where
  "spec_isAllowed dirs cwd requestedPath =
     list_ex (\<lambda>dir. spec_descendant_or_equal dir (normalizedPath cwd requestedPath)) dirs"

section \<open>The process table and the environment\<close>

text \<open>The handle of a spawned child process, as the runtime hands it out.\<close>

type_synonym child = nat

text \<open>Lines 18--26: one entry of the process table.\<close>

record RunningProcess =
  process :: child
  output' :: string
  error :: string
  running :: bool
  startTime :: int
  workingDir :: string
  command :: string

text \<open>
  The state the server's code reads and writes: the map \<^verbatim>\<open>runningProcesses\<close>
  (line 28); the pending one-shot timers of \<^verbatim>\<open>setTimeout\<close>, each named by the
  process id its callback closes over (the ids are the values of \<^verbatim>\<open>uuidv4()\<close>, one
  per start), with its delay in milliseconds; and, to observe what the code asks of the
  operating system, the calls of \<^verbatim>\<open>spawn\<close> (executable, arguments, working
  directory) and of \<^verbatim>\<open>kill\<close> in the order they were made.
\<close>

record server =
  runningProcesses :: "string \<rightharpoonup> RunningProcess"
  timers :: "string \<rightharpoonup> int"
  spawned :: "(string \<times> string list \<times> string) list"
  killed :: "child list"

definition init_server :: server where
  "init_server = \<lparr>runningProcesses = Map.empty, timers = Map.empty, spawned = [], killed = []\<rparr>"

text \<open>
  What a call of \<^verbatim>\<open>spawn\<close> can do. It returns a child whose process runs; or it
  returns a child although the operating system could not create the process (a missing
  executable, a permission denial: Node reports these afterwards, through the
  \<^verbatim>\<open>error\<close> event of the child); or it throws (an argument it refuses, such as an
  empty executable name). A child that is returned has its two output streams, so that
  registering the listeners of lines 159--190 does not fail.
\<close>

datatype spawn_outcome =
    Started child
  | FailsLater child string
  | Throws string

text \<open>What the environment supplies to one tool call: the value of \<^verbatim>\<open>uuidv4()\<close>,
  the value of \<^verbatim>\<open>Date.now()\<close>, and the outcome of \<^verbatim>\<open>spawn\<close>.\<close>

record world =
  uuid :: string
  date_now :: int
  spawn_result :: spawn_outcome

section \<open>Starting a command\<close>

text \<open>The two errors \<^verbatim>\<open>executeCommand\<close> throws, each with its message.\<close>

datatype exec_error =
    DirectoryNotAllowed string
  | LaunchError string

fun message :: "exec_error \<Rightarrow> string" where
  "message (DirectoryNotAllowed m) = m"
| "message (LaunchError m) = m"

text \<open>Lines 119--122: the command line is cut at every space; the first piece is the
  executable, the other pieces are the arguments.\<close>

definition parse_command :: "string \<Rightarrow> string \<times> string list" where
  "parse_command cmdline =
     (let parts = js_split CHR '' '' cmdline in (hd parts, tl parts))"

text \<open>
  Lines 102--197. The directory check comes first and throws before anything else is
  done. Otherwise \<^verbatim>\<open>spawn\<close> is called; when it throws, the error is rethrown with a
  prefix; when it returns, the entry is stored as running, the timer is armed and the
  process id is returned.
\<close>

definition executeCommand ::
  "string list \<Rightarrow> string \<Rightarrow> string \<Rightarrow> string \<Rightarrow> int \<Rightarrow> world \<Rightarrow> server
     \<Rightarrow> (exec_error + string) \<times> server" where
  "executeCommand dirs cwd cmdline wd timeout w s =
     (let effectiveWorkingDir = (if wd = [] then cwd else wd) in
      if \<not> isPathAllowed dirs cwd effectiveWorkingDir then
        (Inl (DirectoryNotAllowed
                (''Working directory not allowed: '' @ effectiveWorkingDir
                 @ ''. Allowed directories: '' @ js_join '', '' dirs)), s)
      else
        (let (cmd, args) = parse_command cmdline;
             processId = uuid w;
             timeoutMs = timeout * 1000;
             s1 = s\<lparr>spawned := spawned s @ [(cmd, args, effectiveWorkingDir)]\<rparr>;
             store = (\<lambda>ch.
               s1\<lparr>runningProcesses := (runningProcesses s1)(processId \<mapsto>
                      \<lparr>process = ch, output' = [], error = [], running = True,
                       startTime = date_now w, workingDir = effectiveWorkingDir,
                       command = cmdline\<rparr>),
                   timers := (timers s1)(processId \<mapsto> timeoutMs)\<rparr>)
         in case spawn_result w of
              Throws msg \<Rightarrow> (Inl (LaunchError (''Failed to start command: '' @ msg)), s1)
            | Started ch \<Rightarrow> (Inr processId, store ch)
            | FailsLater ch msg \<Rightarrow> (Inr processId, store ch)))"

section \<open>The callbacks of a started command\<close>

text \<open>Lines 144--156, the timer's callback: a running entry is killed, marked as not
  running, and the note is appended to its error text.\<close>

definition timeout_note :: string where
  "timeout_note = CHR 0x0A # ''Process terminated due to timeout.''"

definition timeout_callback :: "string \<Rightarrow> server \<Rightarrow> server" where
  "timeout_callback processId s =
     (case runningProcesses s processId of
        None \<Rightarrow> s
      | Some proc \<Rightarrow>
          if running proc then
            s\<lparr>killed := killed s @ [process proc],
              runningProcesses := (runningProcesses s)(processId \<mapsto>
                proc\<lparr>running := False, error := error proc @ timeout_note\<rparr>)\<rparr>
          else s)"

text \<open>Lines 159--167 and 170--178: a chunk of output is appended to the entry, when
  the entry is still in the table.\<close>

definition stdout_data :: "string \<Rightarrow> string \<Rightarrow> server \<Rightarrow> server" where
  "stdout_data processId chunk s =
     (case runningProcesses s processId of
        None \<Rightarrow> s
      | Some proc \<Rightarrow>
          s\<lparr>runningProcesses := (runningProcesses s)(processId \<mapsto>
               proc\<lparr>output' := output' proc @ chunk\<rparr>)\<rparr>)"

definition stderr_data :: "string \<Rightarrow> string \<Rightarrow> server \<Rightarrow> server" where
  "stderr_data processId chunk s =
     (case runningProcesses s processId of
        None \<Rightarrow> s
      | Some proc \<Rightarrow>
          s\<lparr>runningProcesses := (runningProcesses s)(processId \<mapsto>
               proc\<lparr>error := error proc @ chunk\<rparr>)\<rparr>)"

text \<open>Lines 181--190: when the child closes, the timer is cleared and the entry, when
  still in the table, is marked as not running.\<close>

definition on_close :: "string \<Rightarrow> server \<Rightarrow> server" where
  "on_close processId s =
     (let s1 = s\<lparr>timers := (timers s)(processId := None)\<rparr> in
      case runningProcesses s1 processId of
        None \<Rightarrow> s1
      | Some proc \<Rightarrow>
          s1\<lparr>runningProcesses := (runningProcesses s1)(processId \<mapsto>
                proc\<lparr>running := False\<rparr>)\<rparr>)"

text \<open>
  The events the runtime delivers to those callbacks, one at a time. A timer fires only
  while it is pending, and firing consumes it (\<^verbatim>\<open>setTimeout\<close> is one-shot). The
  passing of time itself is not part of the state: a process has run longer than its
  timeout exactly when the runtime delivers the firing of its timer.
\<close>

datatype event =
    TimerFired string
  | StdoutData string string
  | StderrData string string
  | Closed string

fun deliver :: "event \<Rightarrow> server \<Rightarrow> server" where
  "deliver (TimerFired processId) s =
     (if timers s processId = None then s
      else timeout_callback processId (s\<lparr>timers := (timers s)(processId := None)\<rparr>))"
| "deliver (StdoutData processId chunk) s = stdout_data processId chunk s"
| "deliver (StderrData processId chunk) s = stderr_data processId chunk s"
| "deliver (Closed processId) s = on_close processId s"

section \<open>The tool calls\<close>

text \<open>The values the handler of \<^verbatim>\<open>read_output\<close> puts into its text, field by field
  (lines 303--317).\<close>

record report =
  report_processId :: string
  report_command :: string
  report_status :: string
  report_workingDir :: string
  report_runtime :: int
  report_stdout :: string
  report_stderr :: string

datatype tool_text =
    CommandStarted string string string
  | Report report
  | NoProcessFound string
  | AllowedDirectoriesText "string list"
  | ErrorText string

record tool_result =
  content :: tool_text
  isError :: bool

text \<open>The arguments of a call that pass the schemas of lines 59--83; an optional
  argument that is absent is \<open>None\<close>. The timeout is a whole number of seconds.\<close>

datatype tool_call =
    ExecuteCommandCall string "string option" "int option"
  | ReadOutputCall string "bool option"
  | ListAllowedDirectoriesCall
  | UnknownToolCall string

text \<open>\<^verbatim>\<open>Math.round((Date.now() - proc.startTime) / 1000)\<close> on whole milliseconds:
  halves round upwards.\<close>

definition runtime_seconds :: "int \<Rightarrow> int \<Rightarrow> int" where
  "runtime_seconds now start = (now - start + 500) div 1000"

definition make_report :: "string \<Rightarrow> int \<Rightarrow> RunningProcess \<Rightarrow> report" where
  "make_report processId now proc =
     \<lparr>report_processId = processId,
      report_command = command proc,
      report_status = (if running proc then ''Running'' else ''Completed''),
      report_workingDir = workingDir proc,
      report_runtime = runtime_seconds now (startTime proc),
      report_stdout = (if output' proc = [] then ''(No output)'' else output' proc),
      report_stderr = (if error proc = [] then ''(No errors)'' else error proc)\<rparr>"

text \<open>Lines 281--327: an unknown id is answered with an error result; otherwise the
  report is prepared first, and afterwards the entry is deleted when clearing was asked
  for and the entry is not running.\<close>

definition read_output :: "string \<Rightarrow> bool \<Rightarrow> int \<Rightarrow> server \<Rightarrow> tool_result \<times> server" where
  "read_output processId clear now s =
     (case runningProcesses s processId of
        None \<Rightarrow> (\<lparr>content = NoProcessFound processId, isError = True\<rparr>, s)
      | Some proc \<Rightarrow>
          (let response = make_report processId now proc;
               s' = (if clear \<and> \<not> running proc
                     then s\<lparr>runningProcesses := (runningProcesses s)(processId := None)\<rparr>
                     else s)
           in (\<lparr>content = Report response, isError = False\<rparr>, s')))"

text \<open>Lines 248--352: the handler of tool calls. Whatever \<^verbatim>\<open>executeCommand\<close> throws
  is caught and returned as an error result.\<close>

fun call_tool :: "string list \<Rightarrow> string \<Rightarrow> tool_call \<Rightarrow> world \<Rightarrow> server
    \<Rightarrow> tool_result \<times> server" where
  "call_tool dirs cwd (ExecuteCommandCall cmdline wd timeout) w s =
     (let wd1 = (case wd of None \<Rightarrow> cwd | Some d \<Rightarrow> if d = [] then cwd else d);
          timeout1 = (case timeout of None \<Rightarrow> 60 | Some t \<Rightarrow> t)
      in case executeCommand dirs cwd cmdline wd1 timeout1 w s of
           (Inr processId, s') \<Rightarrow>
             (\<lparr>content = CommandStarted processId cmdline wd1, isError = False\<rparr>, s')
         | (Inl e, s') \<Rightarrow>
             (\<lparr>content = ErrorText (''Error: '' @ message e), isError = True\<rparr>, s'))"
| "call_tool dirs cwd (ReadOutputCall processId clear) w s =
     read_output processId (case clear of None \<Rightarrow> False | Some c \<Rightarrow> c) (date_now w) s"
| "call_tool dirs cwd ListAllowedDirectoriesCall w s =
     (\<lparr>content = AllowedDirectoriesText dirs, isError = False\<rparr>, s)"
| "call_tool dirs cwd (UnknownToolCall name) w s =
     (\<lparr>content = ErrorText (''Error: Unknown tool: '' @ name), isError = True\<rparr>, s)"

section \<open>Runs of the server\<close>

text \<open>One step of the server is a tool call or the delivery of an event; the event
  loop runs them one after the other.\<close>

datatype action =
    Call tool_call world
  | Deliver event

fun step :: "string list \<Rightarrow> string \<Rightarrow> action \<Rightarrow> server \<Rightarrow> server" where
  "step dirs cwd (Call c w) s = snd (call_tool dirs cwd c w s)"
| "step dirs cwd (Deliver e) s = deliver e s"

fun run :: "string list \<Rightarrow> string \<Rightarrow> action list \<Rightarrow> server \<Rightarrow> server" where
  "run dirs cwd [] s = s"
| "run dirs cwd (a # as) s = run dirs cwd as (step dirs cwd a s)"


text \<open>The entry of \<open>pid\<close> is in the table and marked as running.\<close>

definition is_running :: "server \<Rightarrow> string \<Rightarrow> bool" where
  "is_running s pid = (case runningProcesses s pid of None \<Rightarrow> False | Some proc \<Rightarrow> running proc)"





section \<open>Auxiliary notions for the proofs\<close>

text \<open>A segment that normalization keeps as it is, and a path made of such segments
  behind a leading slash: the form every resolved absolute path has.\<close>

definition clean_segment :: "string \<Rightarrow> bool" where
  "clean_segment seg =
     (seg \<noteq> [] \<and> seg \<noteq> ''.'' \<and> seg \<noteq> ''..'' \<and> CHR ''/'' \<notin> set seg)"

definition canonical :: "string \<Rightarrow> bool" where
  "canonical p = (\<exists>segs. list_all clean_segment segs \<and> p = ''/'' @ js_join ''/'' segs)"

text \<open>A small run used as the concrete instance of the theorems below: one command
  started in \<^verbatim>\<open>/srv/app\<close> by a server whose only allowed directory is \<^verbatim>\<open>/srv\<close>.\<close>

definition example_proc :: RunningProcess where
  "example_proc = \<lparr>process = 7, output' = [], error = [], running = True,
     startTime = 1000, workingDir = ''/srv/app'', command = ''echo hi''\<rparr>"

definition example_world :: world where
  "example_world = \<lparr>uuid = ''p1'', date_now = 1000, spawn_result = Started 7\<rparr>"

definition example_start :: action where
  "example_start =
     Call (ExecuteCommandCall ''echo hi'' (Some ''/srv/app'') (Some 5)) example_world"


definition example_reader :: world where
  "example_reader = \<lparr>uuid = ''p7'', date_now = 7001, spawn_result = Started 9\<rparr>"



definition example_closed :: server where
  "example_closed =
     \<lparr>runningProcesses = [''p1'' \<mapsto>
        example_proc\<lparr>output' := ''hi'', error := ''warn'', running := False\<rparr>],
      timers = Map.empty,
      spawned = [(''echo'', [''hi''], ''/srv/app'')], killed = []\<rparr>"

section \<open>Facts about splitting, joining and normalizing\<close>

lemma js_split_nonempty: "js_split c s \<noteq> []"
  by (induction s) (auto split: list.splits)

lemma js_split_no_separator: "c \<notin> set s \<Longrightarrow> js_split c s = [s]"
  by (induction s) auto

lemma js_split_append:
  "c \<notin> set xs \<Longrightarrow> js_split c (xs @ c # ys) = xs # js_split c ys"
  by (induction xs) auto

lemma js_split_pieces: "p \<in> set (js_split c s) \<Longrightarrow> c \<notin> set p"
proof (induction s arbitrary: p)
  case Nil
  then show ?case by simp
next
  case (Cons x s)
  then show ?case
    by (cases "js_split c s") (auto split: if_splits)
qed

lemma js_join_split: "js_join [c] (js_split c s) = s"
proof (induction s)
  case Nil
  then show ?case by simp
next
  case (Cons x s)
  then show ?case
    by (cases "js_split c s"; cases "tl (js_split c s)") (auto simp: js_split_nonempty)
qed

lemma length_js_split: "length (js_split c s) = Suc (count_list s c)"
  by (induction s) (auto simp: js_split_nonempty split: list.splits)

lemma js_split_join:
  "segs \<noteq> [] \<Longrightarrow> \<forall>s\<in>set segs. c \<notin> set s \<Longrightarrow> js_split c (js_join [c] segs) = segs"
proof (induction "[c]" segs rule: js_join.induct)
  case 1
  then show ?case by simp
next
  case (2 x)
  then show ?case by (simp add: js_split_no_separator)
next
  case (3 x y ys)
  then show ?case using js_split_append [of c x "js_join [c] (y # ys)"] by simp
qed

lemma js_join_snoc_empty: "segs \<noteq> [] \<Longrightarrow> js_join sep (segs @ [[]]) = js_join sep segs @ sep"
  by (induction sep segs rule: js_join.induct) auto

lemma js_join_nonempty: "segs \<noteq> [] \<Longrightarrow> hd segs \<noteq> [] \<Longrightarrow> js_join sep segs \<noteq> []"
  by (cases segs; cases "tl segs") auto

lemma js_join_nonempty_last: "segs \<noteq> [] \<Longrightarrow> last segs \<noteq> [] \<Longrightarrow> js_join sep segs \<noteq> []"
  by (induction sep segs rule: js_join.induct) auto

lemma last_js_join:
  "segs \<noteq> [] \<Longrightarrow> last segs \<noteq> [] \<Longrightarrow> last (js_join sep segs) = last (last segs)"
proof (induction sep segs rule: js_join.induct)
  case (3 sep x y ys)
  then have "js_join sep (y # ys) \<noteq> []"
    using js_join_nonempty_last [of "y # ys" sep] by simp
  then show ?case using 3 by simp
qed simp_all

lemma normalize_segments_append:
  "normalize_segments allow res (xs @ ys) =
   normalize_segments allow (normalize_segments allow res xs) ys"
  by (induction xs arbitrary: res) (auto split: list.splits)

lemma normalize_segments_clean:
  "list_all clean_segment segs \<Longrightarrow> normalize_segments allow res segs = rev segs @ res"
  by (induction segs arbitrary: res) (auto simp: clean_segment_def)

lemma normalize_segments_result_clean:
  "list_all clean_segment res \<Longrightarrow> \<forall>s\<in>set segs. CHR ''/'' \<notin> set s \<Longrightarrow>
   list_all clean_segment (normalize_segments False res segs)"
  by (induction segs arbitrary: res) (auto simp: clean_segment_def split: list.splits)

lemma normalizeString_canonical:
  "canonical (CHR ''/'' # normalizeString path False)"
proof -
  have "list_all clean_segment (normalize_segments False [] (js_split CHR ''/'' path))"
    by (rule normalize_segments_result_clean) (auto dest: js_split_pieces)
  then have "list_all clean_segment (rev (normalize_segments False [] (js_split CHR ''/'' path)))"
    by simp
  then have "\<exists>segs. list_all clean_segment segs \<and>
      CHR ''/'' # normalizeString path False = ''/'' @ js_join ''/'' segs"
    unfolding normalizeString_def by (intro exI conjI) simp_all
  then show ?thesis unfolding canonical_def .
qed

lemma isAbsolute_nonempty: "isAbsolute p \<Longrightarrow> p \<noteq> []"
  by (auto simp: isAbsolute_def)

lemma path_resolve_canonical: "isAbsolute cwd \<Longrightarrow> canonical (path_resolve cwd p)"
  by (auto simp: path_resolve_def Let_def normalizeString_canonical dest: isAbsolute_nonempty)

lemma normalizeString_of_canonical:
  assumes "list_all clean_segment segs"
  shows "normalizeString (''/'' @ js_join ''/'' segs) False = js_join ''/'' segs"
    and "normalizeString (''/'' @ js_join ''/'' segs @ ''/'') False = js_join ''/'' segs"
proof -
  have nosep: "\<forall>s\<in>set segs. CHR ''/'' \<notin> set s"
    using assms by (auto simp: list_all_iff clean_segment_def)
  show "normalizeString (''/'' @ js_join ''/'' segs) False = js_join ''/'' segs"
  proof (cases "segs = []")
    case True
    then show ?thesis by (simp add: normalizeString_def)
  next
    case False
    then have "js_split CHR ''/'' (js_join ''/'' segs) = segs"
      using nosep by (simp add: js_split_join)
    then show ?thesis using assms
      by (simp add: normalizeString_def normalize_segments_clean)
  qed
  show "normalizeString (''/'' @ js_join ''/'' segs @ ''/'') False = js_join ''/'' segs"
  proof (cases "segs = []")
    case True
    then show ?thesis by (simp add: normalizeString_def)
  next
    case False
    then have "js_join ''/'' segs @ ''/'' = js_join ''/'' (segs @ [[]])"
      by (simp add: js_join_snoc_empty)
    moreover have "js_split CHR ''/'' (js_join ''/'' (segs @ [[]])) = segs @ [[]]"
      using nosep by (intro js_split_join) auto
    ultimately have "js_split CHR ''/'' (js_join ''/'' segs @ ''/'') = segs @ [[]]"
      by simp
    then show ?thesis using assms
      by (simp add: normalizeString_def normalize_segments_append normalize_segments_clean)
  qed
qed

lemma path_resolve_of_canonical:
  assumes "canonical p"
  shows "path_resolve cwd p = p"
proof -
  obtain segs where segs: "list_all clean_segment segs" and p: "p = ''/'' @ js_join ''/'' segs"
    using assms by (auto simp: canonical_def)
  have "isAbsolute p" by (simp add: p isAbsolute_def)
  then show ?thesis
    using normalizeString_of_canonical(2) [OF segs]
    by (simp add: path_resolve_def p)
qed

lemma path_normalize_of_canonical:
  assumes "canonical p"
  shows "path_normalize p = p"
proof -
  obtain segs where segs: "list_all clean_segment segs" and p: "p = ''/'' @ js_join ''/'' segs"
    using assms by (auto simp: canonical_def)
  have abs: "isAbsolute p" by (simp add: p isAbsolute_def)
  have n: "normalizeString p False = js_join ''/'' segs"
    using normalizeString_of_canonical(1) [OF segs] by (simp add: p)
  show ?thesis
  proof (cases "segs = []")
    case True
    then show ?thesis using abs by (simp add: path_normalize_def p normalizeString_def)
  next
    case False
    have l: "last segs \<noteq> []" "CHR ''/'' \<notin> set (last segs)"
      using segs False last_in_set [OF False] by (auto simp: list_all_iff clean_segment_def)
    then have ne: "js_join ''/'' segs \<noteq> []"
      using False by (simp add: js_join_nonempty_last)
    have "last p = last (last segs)"
      using ne False l by (simp add: p last_js_join)
    moreover have "last (last segs) \<in> set (last segs)"
      using l(1) by (rule last_in_set)
    ultimately have "last p \<noteq> CHR ''/''"
      using l(2) by auto
    then show ?thesis using abs n ne
      by (simp add: path_normalize_def Let_def) (simp add: p)
  qed
qed

lemma normalizedPath_canonical: "isAbsolute cwd \<Longrightarrow> canonical (normalizedPath cwd p)"
  by (simp add: normalizedPath_def path_normalize_of_canonical path_resolve_canonical)

lemma normalizedPath_idem:
  "isAbsolute cwd \<Longrightarrow> normalizedPath cwd (normalizedPath cwd p) = normalizedPath cwd p"
  using normalizedPath_canonical [of cwd p]
  by (simp add: normalizedPath_def [of cwd "normalizedPath cwd p"]
        path_normalize_of_canonical path_resolve_of_canonical)

text \<open>Whatever lies in or below an allowed directory is accepted by the check.\<close>

lemma js_join_append:
  "xs \<noteq> [] \<Longrightarrow> zs \<noteq> [] \<Longrightarrow> js_join sep (xs @ zs) = js_join sep xs @ sep @ js_join sep zs"
proof (induction sep xs rule: js_join.induct)
  case (2 sep x)
  then show ?case by (cases zs) simp_all
qed simp_all

lemma js_join_prefix: "prefix xs ys \<Longrightarrow> prefix (js_join sep xs) (js_join sep ys)"
proof -
  assume "prefix xs ys"
  then obtain zs where ys: "ys = xs @ zs" by (auto simp: prefix_def)
  show ?thesis
  proof (cases "xs = [] \<or> zs = []")
    case True
    then show ?thesis using ys by auto
  next
    case False
    then show ?thesis using ys by (simp add: js_join_append)
  qed
qed

lemma path_segments_canonical:
  assumes "list_all clean_segment segs"
  shows "path_segments (''/'' @ js_join ''/'' segs) = segs"
proof (cases "segs = []")
  case True
  then show ?thesis by (simp add: path_segments_def)
next
  case False
  have "\<forall>s\<in>set segs. CHR ''/'' \<notin> set s" and ne: "\<forall>s\<in>set segs. s \<noteq> []"
    using assms by (auto simp: list_all_iff clean_segment_def)
  then have "js_split CHR ''/'' (js_join ''/'' segs) = segs"
    using False by (simp add: js_split_join)
  then show ?thesis using ne by (simp add: path_segments_def filter_id_conv)
qed

lemma descendant_is_accepted:
  assumes "canonical root" and "canonical p" and "spec_descendant_or_equal root p"
  shows "startsWith p root"
proof -
  obtain rs where rs: "list_all clean_segment rs" "root = ''/'' @ js_join ''/'' rs"
    using assms(1) by (auto simp: canonical_def)
  obtain ps where ps: "list_all clean_segment ps" "p = ''/'' @ js_join ''/'' ps"
    using assms(2) by (auto simp: canonical_def)
  have "prefix rs ps"
    using assms(3) path_segments_canonical [OF rs(1)] path_segments_canonical [OF ps(1)]
    by (simp add: spec_descendant_or_equal_def rs(2) ps(2))
  then have "prefix (js_join ''/'' rs) (js_join ''/'' ps)" by (rule js_join_prefix)
  then show ?thesis by (simp add: startsWith_def rs(2) ps(2))
qed

lemma allowedDirectories_canonical:
  "isAbsolute cwd \<Longrightarrow> args \<noteq> [] \<Longrightarrow> list_all canonical (allowedDirectories homedir cwd args)"
  using normalizedPath_canonical [of cwd]
  by (simp add: allowedDirectories_def allowedDirectory_def list_all_iff normalizedPath_def)

lemma spec_allowed_is_accepted:
  assumes "isAbsolute cwd" and "list_all canonical dirs" and "spec_isAllowed dirs cwd p"
  shows "isPathAllowed dirs cwd p"
proof -
  obtain d where d: "d \<in> set dirs" "spec_descendant_or_equal d (normalizedPath cwd p)"
    using assms(3) by (auto simp: spec_isAllowed_def list_ex_iff)
  have "canonical d" using assms(2) d(1) by (simp add: list_all_iff)
  from descendant_is_accepted [OF this normalizedPath_canonical [OF assms(1)] d(2)] d(1)
  show ?thesis by (auto simp: isPathAllowed_def list_ex_iff)
qed

section \<open>Facts about single steps and runs\<close>

lemma executeCommand_cases:
  "executeCommand dirs cwd cmdline wd timeout w s = (r, s') \<Longrightarrow>
   (s' = s \<and> (\<exists>m. r = Inl (DirectoryNotAllowed m)))
   \<or> (\<exists>m. r = Inl (LaunchError m) \<and> s' = s\<lparr>spawned := spawned s @ [(fst (parse_command cmdline), snd (parse_command cmdline), if wd = [] then cwd else wd)]\<rparr>)
   \<or> (\<exists>ch. r = Inr (uuid w) \<and> 
        s' = s\<lparr>spawned := spawned s @ [(fst (parse_command cmdline), snd (parse_command cmdline), if wd = [] then cwd else wd)],
               runningProcesses := (runningProcesses s)(uuid w \<mapsto>
                      \<lparr>process = ch, output' = [], error = [], running = True,
                       startTime = date_now w, workingDir = (if wd = [] then cwd else wd),
                       command = cmdline\<rparr>),
               timers := (timers s)(uuid w \<mapsto> timeout * 1000)\<rparr>)"
  unfolding executeCommand_def Let_def
  by (cases "spawn_result w") (auto split: if_splits prod.splits)


lemma call_tool_execute_snd:
  "snd (call_tool dirs cwd (ExecuteCommandCall cmdline wd timeout) w s) =
   snd (executeCommand dirs cwd cmdline
          (case wd of None \<Rightarrow> cwd | Some d \<Rightarrow> if d = [] then cwd else d)
          (case timeout of None \<Rightarrow> 60 | Some t \<Rightarrow> t) w s)"
  by (simp add: Let_def split: prod.splits sum.splits)


















lemma executeCommand_rejected:
  "\<not> isPathAllowed dirs cwd (if wd = [] then cwd else wd) \<Longrightarrow>
   executeCommand dirs cwd cmdline wd timeout w s =
     (Inl (DirectoryNotAllowed
             (''Working directory not allowed: '' @ (if wd = [] then cwd else wd)
              @ ''. Allowed directories: '' @ js_join '', '' dirs)), s)"
  by (simp add: executeCommand_def)

lemma step_keeps_timer_of_running:
  assumes inv: "\<forall>p. is_running s p \<longrightarrow> timers s p \<noteq> None"
  shows "\<forall>p. is_running (step dirs cwd a s) p \<longrightarrow> timers (step dirs cwd a s) p \<noteq> None"
proof (cases a)
  case (Call c w)
  show ?thesis
  proof (cases c)
    case (ExecuteCommandCall cmdline wd timeout)
    let ?wd = "case wd of None \<Rightarrow> cwd | Some d \<Rightarrow> if d = [] then cwd else d"
    let ?t = "case timeout of None \<Rightarrow> 60 | Some t \<Rightarrow> t"
    obtain r s' where e: "executeCommand dirs cwd cmdline ?wd ?t w s = (r, s')"
      by (cases "executeCommand dirs cwd cmdline ?wd ?t w s")
    have s': "step dirs cwd a s = s'"
      using Call ExecuteCommandCall e by (simp only: step.simps call_tool_execute_snd) simp
    from executeCommand_cases [OF e] inv show ?thesis
      unfolding s' by (auto simp: is_running_def split: if_splits)
  next
    case (ReadOutputCall p clear)
    then show ?thesis using Call inv
      by (auto simp: is_running_def read_output_def Let_def split: option.splits if_splits)
  qed (use Call inv in simp_all)
next
  case (Deliver e)
  then show ?thesis using inv
    by (cases e)
       (auto simp: is_running_def timeout_callback_def stdout_data_def stderr_data_def
                   on_close_def Let_def split: option.splits if_splits)
qed

lemma run_keeps_timer_of_running:
  "\<forall>p. is_running s p \<longrightarrow> timers s p \<noteq> None \<Longrightarrow>
   \<forall>p. is_running (run dirs cwd tr s) p \<longrightarrow> timers (run dirs cwd tr s) p \<noteq> None"
proof (induction tr arbitrary: s)
  case Nil
  then show ?case by simp
next
  case (Cons a tr)
  from step_keeps_timer_of_running [OF Cons.prems]
  have "\<forall>p. is_running (step dirs cwd a s) p \<longrightarrow> timers (step dirs cwd a s) p \<noteq> None" .
  from Cons.IH [OF this] show ?case by simp
qed

lemma timer_armed_while_running:
  "is_running (run dirs cwd tr init_server) pid \<Longrightarrow>
   timers (run dirs cwd tr init_server) pid \<noteq> None"
  using run_keeps_timer_of_running [of init_server dirs cwd tr]
  by (simp add: init_server_def is_running_def)



lemma read_output_absent:
  "runningProcesses s pid = None \<Longrightarrow>
   read_output pid clear now s = (\<lparr>content = NoProcessFound pid, isError = True\<rparr>, s)"
  by (simp add: read_output_def)

lemma read_output_no_clear: "snd (read_output pid False now s) = s"
  by (simp add: read_output_def split: option.splits)

lemma read_output_running:
  "runningProcesses s pid = Some proc \<Longrightarrow> running proc \<Longrightarrow>
   read_output pid clear now s =
     (\<lparr>content = Report (make_report pid now proc), isError = False\<rparr>, s)"
  by (simp add: read_output_def)


lemma thrown_launch_error_is_returned:
  assumes "isPathAllowed dirs cwd (if wd = [] then cwd else wd)" and "spawn_result w = Throws msg"
  shows "executeCommand dirs cwd cmdline wd timeout w s =
     (Inl (LaunchError (''Failed to start command: '' @ msg)),
      s\<lparr>spawned := spawned s @ [(fst (parse_command cmdline), snd (parse_command cmdline),
                                 if wd = [] then cwd else wd)]\<rparr>)"
  using assms by (simp add: executeCommand_def Let_def split: prod.splits)

lemma started_entry:
  assumes "executeCommand dirs cwd cmdline wd timeout w s = (Inr pid, s')"
  shows "pid = uuid w
    \<and> (\<exists>ch. runningProcesses s' pid =
          Some \<lparr>process = ch, output' = [], error = [], running = True,
                startTime = date_now w, workingDir = (if wd = [] then cwd else wd),
                command = cmdline\<rparr>)
    \<and> timers s' pid = Some (timeout * 1000)"
  using executeCommand_cases [OF assms] by auto








section \<open>The example run\<close>

lemma allowed_example: "isPathAllowed [''/srv''] ''/srv'' ''/srv/app''"
  by code_simp

lemma rejected_example: "\<not> isPathAllowed [''/srv''] ''/srv'' ''/etc''"
  by code_simp

lemma parse_example: "parse_command ''echo hi'' = (''echo'', [''hi''])"
  by code_simp

lemma example_started:
  "run [''/srv''] ''/srv'' [example_start] init_server =
     \<lparr>runningProcesses = [''p1'' \<mapsto> example_proc], timers = [''p1'' \<mapsto> 5000],
      spawned = [(''echo'', [''hi''], ''/srv/app'')], killed = []\<rparr>"
  by (simp add: example_start_def example_world_def example_proc_def init_server_def
        executeCommand_def allowed_example parse_example Let_def)





lemma example_closed_reached:
  "run [''/srv''] ''/srv''
     [example_start, Deliver (StdoutData ''p1'' ''hi''), Deliver (StderrData ''p1'' ''warn''),
      Deliver (Closed ''p1'')]
     init_server = example_closed"
proof -
  have "run [''/srv''] ''/srv''
     [example_start, Deliver (StdoutData ''p1'' ''hi''), Deliver (StderrData ''p1'' ''warn''),
      Deliver (Closed ''p1'')] init_server
     = run [''/srv''] ''/srv''
         [Deliver (StdoutData ''p1'' ''hi''), Deliver (StderrData ''p1'' ''warn''),
          Deliver (Closed ''p1'')]
         (run [''/srv''] ''/srv'' [example_start] init_server)"
    by simp
  then show ?thesis
    by (simp only: example_started)
       (simp add: example_closed_def stdout_data_def stderr_data_def on_close_def
          example_proc_def)
qed

text \<open>
  A start whose working directory the security check refuses: \<^verbatim>\<open>executeCommand\<close>
  throws the directory error, the caller receives it as an error result, and the server
  state is the one before the call.
\<close>

lemma rejected_directory_starts_nothing:
  assumes "\<not> isPathAllowed dirs cwd (case wd of None \<Rightarrow> cwd | Some d \<Rightarrow> if d = [] then cwd else d)"
  shows "call_tool dirs cwd (ExecuteCommandCall cmdline wd timeout) w s =
           (\<lparr>content = ErrorText (''Error: Working directory not allowed: ''
                 @ (case wd of None \<Rightarrow> cwd | Some d \<Rightarrow> if d = [] then cwd else d)
                 @ ''. Allowed directories: '' @ js_join '', '' dirs),
             isError = True\<rparr>, s)
    \<and> (\<exists>m. executeCommand dirs cwd cmdline
               (case wd of None \<Rightarrow> cwd | Some d \<Rightarrow> if d = [] then cwd else d)
               (case timeout of None \<Rightarrow> 60 | Some t \<Rightarrow> t) w s
             = (Inl (DirectoryNotAllowed m), s))"
proof -
  define ewd where "ewd = (case wd of None \<Rightarrow> cwd | Some d \<Rightarrow> if d = [] then cwd else d)"
  define t where "t = (case timeout of None \<Rightarrow> (60::int) | Some t \<Rightarrow> t)"
  have "(if ewd = [] then cwd else ewd) = ewd"
    by (simp add: ewd_def split: option.splits)
  moreover have "\<not> isPathAllowed dirs cwd ewd"
    using assms by (simp add: ewd_def)
  ultimately have e: "executeCommand dirs cwd cmdline ewd t w s =
     (Inl (DirectoryNotAllowed (''Working directory not allowed: '' @ ewd
              @ ''. Allowed directories: '' @ js_join '', '' dirs)), s)"
    using executeCommand_rejected [of dirs cwd ewd cmdline t w s] by simp
  have "call_tool dirs cwd (ExecuteCommandCall cmdline wd timeout) w s =
          (case executeCommand dirs cwd cmdline ewd t w s of
             (Inr processId, s') \<Rightarrow>
               (\<lparr>content = CommandStarted processId cmdline ewd, isError = False\<rparr>, s')
           | (Inl e, s') \<Rightarrow>
               (\<lparr>content = ErrorText (''Error: '' @ message e), isError = True\<rparr>, s'))"
    unfolding call_tool.simps Let_def ewd_def t_def by (rule refl)
  then have "call_tool dirs cwd (ExecuteCommandCall cmdline wd timeout) w s =
      (\<lparr>content = ErrorText (''Error: Working directory not allowed: '' @ ewd
              @ ''. Allowed directories: '' @ js_join '', '' dirs), isError = True\<rparr>, s)"
    by (simp only: e) simp
  then show ?thesis using e unfolding ewd_def t_def by blast
qed

lemma rejected_directory_example:
  "\<not> isPathAllowed [''/srv''] ''/srv'' ''/etc''
   \<and> call_tool [''/srv''] ''/srv'' (ExecuteCommandCall ''ls -l'' (Some ''/etc'') None)
        example_world init_server =
       (\<lparr>content = ErrorText
           ''Error: Working directory not allowed: /etc. Allowed directories: /srv'',
         isError = True\<rparr>, init_server)"
  using rejected_directory_starts_nothing [of "[''/srv'']" "''/srv''" "Some ''/etc''"
      "''ls -l''" None example_world init_server] rejected_example
  by simp

section \<open>The claims of the specification\<close>

subsection \<open>The security check\<close>

text \<open>
  Claim C1 says that \<^verbatim>\<open>isPathAllowed\<close> accepts a path exactly when its normalized
  form is an allowed directory or lies below one, so that a sibling such as
  \<^verbatim>\<open>/foo-bar\<close> of the allowed directory \<^verbatim>\<open>/foo\<close> is refused. The code compares
  strings: with \<^verbatim>\<open>/foo\<close> as the only allowed directory, the path \<^verbatim>\<open>/foo-bar\<close>
  normalizes to itself, is accepted by \<^verbatim>\<open>isPathAllowed\<close>, and is neither \<^verbatim>\<open>/foo\<close>
  nor below it. The other direction holds (lemma \<open>spec_allowed_is_accepted\<close>).
\<close>

theorem sibling_of_allowed_directory_is_accepted:
  "allowedDirectories ''/home/u'' ''/'' [''/foo''] = [''/foo'']
   \<and> normalizedPath ''/'' ''/foo-bar'' = ''/foo-bar''
   \<and> isPathAllowed [''/foo''] ''/'' ''/foo-bar''
   \<and> \<not> spec_isAllowed [''/foo''] ''/'' ''/foo-bar''"
  by code_simp

text \<open>
  Claim C2, as amended. With an absolute current directory, \<^verbatim>\<open>isPathAllowed\<close>
  gives the same answer for a path and for its normalized form, where the normalized
  form is \<^verbatim>\<open>path.normalize(path.resolve(p))\<close>: relative segments are resolved and the
  path is made absolute, but a leading tilde is not replaced by the home directory. The
  normalization of the configured directories at startup is the same one for every
  argument that does not start with a tilde.
\<close>

theorem check_normalizes_without_tilde:
  assumes "isAbsolute cwd"
  shows "isPathAllowed dirs cwd p = isPathAllowed dirs cwd (normalizedPath cwd p)
    \<and> isAbsolute (normalizedPath cwd p)
    \<and> (\<not> startsWith p ''~'' \<longrightarrow> allowedDirectory homedir cwd p = normalizedPath cwd p)"
proof -
  have "isAbsolute (normalizedPath cwd p)"
    using normalizedPath_canonical [OF assms, of p]
    by (auto simp: canonical_def isAbsolute_def)
  then show ?thesis
    using normalizedPath_idem [OF assms, of p]
    by (simp add: isPathAllowed_def allowedDirectory_def normalizedPath_def)
qed

text \<open>
  The theorem of C2 at a concrete path with relative segments.
\<close>

theorem check_normalizes_without_tilde_witness:
  "isAbsolute ''/work''
   \<and> normalizedPath ''/work'' ''../srv//app/./x/..'' = ''/srv/app''
   \<and> isPathAllowed [''/srv''] ''/work'' ''../srv//app/./x/..''
   \<and> isPathAllowed [''/srv''] ''/work'' ''/srv/app''
   \<and> allowedDirectory ''/home/u'' ''/work'' ''../srv//app/./x/..'' = ''/srv/app''"
proof -
  have a: "isAbsolute ''/work''" by code_simp
  have n: "normalizedPath ''/work'' ''../srv//app/./x/..'' = ''/srv/app''" by code_simp
  have i: "isPathAllowed [''/srv''] ''/work'' ''../srv//app/./x/..''" by code_simp
  have t: "\<not> startsWith ''../srv//app/./x/..'' ''~''" by code_simp
  from check_normalizes_without_tilde [OF a, of "[''/srv'']" "''../srv//app/./x/..''" "''/home/u''"]
  show ?thesis using a n i t by simp
qed

text \<open>
  Claim C2 as stated fails: a leading tilde is expanded for a configured directory but
  not for a requested path, so the check of \<^verbatim>\<open>~\<close> differs from the check of what the
  startup normalization makes of \<^verbatim>\<open>~\<close>.
\<close>

theorem tilde_is_not_expanded_counterexample:
  "allowedDirectories ''/home/u'' ''/work'' [''~''] = [''/home/u'']
   \<and> allowedDirectory ''/home/u'' ''/work'' ''~'' = ''/home/u''
   \<and> normalizedPath ''/work'' ''~'' = ''/work/~''
   \<and> isPathAllowed [''/home/u''] ''/work'' ''~''
       \<noteq> isPathAllowed [''/home/u''] ''/work'' (allowedDirectory ''/home/u'' ''/work'' ''~'')"
  by code_simp

subsection \<open>Starting a command\<close>

text \<open>
  Claim C3 says that a start whose process the operating system cannot create fails
  with a launch error returned to the caller. The handler returns an error result only
  when \<^verbatim>\<open>spawn\<close> throws (lemma \<open>thrown_launch_error_is_returned\<close>). When \<^verbatim>\<open>spawn\<close>
  returns a child and the failure is reported afterwards, as for a missing executable,
  the call answers that the command was started and stores an entry marked as running.
\<close>

theorem failed_launch_is_reported_as_started:
  "call_tool [''/srv''] ''/srv'' (ExecuteCommandCall ''no-such-program -v'' (Some ''/srv/app'') None)
      \<lparr>uuid = ''p2'', date_now = 1000,
       spawn_result = FailsLater 8 ''spawn no-such-program ENOENT''\<rparr> init_server =
     (\<lparr>content = CommandStarted ''p2'' ''no-such-program -v'' ''/srv/app'', isError = False\<rparr>,
      \<lparr>runningProcesses = [''p2'' \<mapsto>
          \<lparr>process = 8, output' = [], error = [], running = True, startTime = 1000,
           workingDir = ''/srv/app'', command = ''no-such-program -v''\<rparr>],
       timers = [''p2'' \<mapsto> 60000],
       spawned = [(''no-such-program'', [''-v''], ''/srv/app'')],
       killed = []\<rparr>)"
proof -
  have a: "isPathAllowed [''/srv''] ''/srv'' ''/srv/app''" by code_simp
  have p: "parse_command ''no-such-program -v'' = (''no-such-program'', [''-v''])" by code_simp
  show ?thesis
    by (simp add: executeCommand_def Let_def a p init_server_def)
qed

text \<open>
  Claim C4, as amended. The command line is cut at every single space: joining the
  executable and the arguments with one space each gives back the command line, no
  piece contains a space, and there are as many arguments as the command line has
  spaces. Nothing else separates tokens, and nothing is quoted or interpreted.
\<close>

theorem command_is_cut_at_every_space:
  "js_join '' '' (fst (parse_command cmdline) # snd (parse_command cmdline)) = cmdline
   \<and> CHR '' '' \<notin> set (concat (fst (parse_command cmdline) # snd (parse_command cmdline)))
   \<and> length (snd (parse_command cmdline)) = count_list cmdline CHR '' ''"
proof -
  have ne: "js_split CHR '' '' cmdline \<noteq> []" by (rule js_split_nonempty)
  then have parts: "fst (parse_command cmdline) # snd (parse_command cmdline)
      = js_split CHR '' '' cmdline"
    by (simp add: parse_command_def Let_def)
  have "CHR '' '' \<notin> set (concat (js_split CHR '' '' cmdline))"
    using js_split_pieces [of _ "CHR '' ''" cmdline] by auto
  moreover have "length (snd (parse_command cmdline)) = count_list cmdline CHR '' ''"
    using length_js_split [of "CHR '' ''" cmdline] by (simp add: parse_command_def Let_def)
  ultimately show ?thesis
    using js_join_split [of "CHR '' ''" cmdline] by (simp only: parts) simp
qed

text \<open>
  Claim C4 as stated fails: two spaces in a row give an empty argument, and a tab does
  not separate tokens.
\<close>

theorem split_at_spaces_counterexample:
  "parse_command ''ls  -l'' = (''ls'', ['''', ''-l''])
   \<and> parse_command [CHR ''l'', CHR ''s'', CHR 0x09, CHR ''-'', CHR ''l'']
       = ([CHR ''l'', CHR ''s'', CHR 0x09, CHR ''-'', CHR ''l''], [])"
  by code_simp

text \<open>
  Claim C5 says that a start whose working directory lies outside all allowed
  directories fails, launches nothing and stores nothing. The check that decides it is
  the string comparison of C1: with \<^verbatim>\<open>/foo\<close> as the only allowed directory, a start
  in \<^verbatim>\<open>/foo-bar\<close>, which is neither \<^verbatim>\<open>/foo\<close> nor below it, is answered as
  started, \<^verbatim>\<open>spawn\<close> is called and a running entry is stored. (When the check does
  refuse a directory, nothing is launched or stored: lemma
  \<open>rejected_directory_starts_nothing\<close>.)
\<close>

theorem start_beside_allowed_directory_is_launched:
  "allowedDirectories ''/home/u'' ''/'' [''/foo''] = [''/foo'']
   \<and> \<not> spec_isAllowed [''/foo''] ''/'' ''/foo-bar''
   \<and> call_tool [''/foo''] ''/'' (ExecuteCommandCall ''ls -l'' (Some ''/foo-bar'') None)
        example_world init_server =
       (\<lparr>content = CommandStarted ''p1'' ''ls -l'' ''/foo-bar'', isError = False\<rparr>,
        \<lparr>runningProcesses = [''p1'' \<mapsto>
           \<lparr>process = 7, output' = [], error = [], running = True, startTime = 1000,
            workingDir = ''/foo-bar'', command = ''ls -l''\<rparr>],
         timers = [''p1'' \<mapsto> 60000],
         spawned = [(''ls'', [''-l''], ''/foo-bar'')],
         killed = []\<rparr>)"
proof -
  have r: "allowedDirectories ''/home/u'' ''/'' [''/foo''] = [''/foo'']" by code_simp
  have n: "\<not> spec_isAllowed [''/foo''] ''/'' ''/foo-bar''" by code_simp
  have a: "isPathAllowed [''/foo''] ''/'' ''/foo-bar''" by code_simp
  have p: "parse_command ''ls -l'' = (''ls'', [''-l''])" by code_simp
  have "call_tool [''/foo''] ''/'' (ExecuteCommandCall ''ls -l'' (Some ''/foo-bar'') None)
        example_world init_server =
       (\<lparr>content = CommandStarted ''p1'' ''ls -l'' ''/foo-bar'', isError = False\<rparr>,
        \<lparr>runningProcesses = [''p1'' \<mapsto>
           \<lparr>process = 7, output' = [], error = [], running = True, startTime = 1000,
            workingDir = ''/foo-bar'', command = ''ls -l''\<rparr>],
         timers = [''p1'' \<mapsto> 60000],
         spawned = [(''ls'', [''-l''], ''/foo-bar'')],
         killed = []\<rparr>)"
    by (simp add: executeCommand_def Let_def a p init_server_def example_world_def)
  then show ?thesis using r n by blast
qed

subsection \<open>Reading and clearing\<close>




text \<open>
  Claim C7. For an entry that is running, a read with clearing returns the report of
  the entry (its command, its working directory, the status \<^verbatim>\<open>Running\<close>, the runtime,
  and the output and error text gathered so far, or their placeholders when empty), is
  not an error, and leaves the server state as it was; a following read of the same id
  returns the report again.
\<close>

theorem clear_read_of_running_process:
  assumes "runningProcesses s pid = Some proc" and "running proc"
  shows "call_tool dirs cwd (ReadOutputCall pid (Some True)) w s =
           (\<lparr>content = Report
               \<lparr>report_processId = pid,
                report_command = command proc,
                report_status = ''Running'',
                report_workingDir = workingDir proc,
                report_runtime = (date_now w - startTime proc + 500) div 1000,
                report_stdout = (if output' proc = [] then ''(No output)'' else output' proc),
                report_stderr = (if error proc = [] then ''(No errors)'' else error proc)\<rparr>,
             isError = False\<rparr>, s)
    \<and> call_tool dirs cwd (ReadOutputCall pid clear) w'
         (snd (call_tool dirs cwd (ReadOutputCall pid (Some True)) w s)) =
           (\<lparr>content = Report
               \<lparr>report_processId = pid,
                report_command = command proc,
                report_status = ''Running'',
                report_workingDir = workingDir proc,
                report_runtime = (date_now w' - startTime proc + 500) div 1000,
                report_stdout = (if output' proc = [] then ''(No output)'' else output' proc),
                report_stderr = (if error proc = [] then ''(No errors)'' else error proc)\<rparr>,
             isError = False\<rparr>, s)"
  using assms by (simp add: read_output_running make_report_def runtime_seconds_def)

text \<open>
  The theorem of C7 for the example command after it has written to both streams, read
  six seconds after its start.
\<close>

theorem clear_read_of_running_process_witness:
  "runningProcesses
     \<lparr>runningProcesses = [''p1'' \<mapsto> example_proc\<lparr>output' := ''hi'', error := ''warn''\<rparr>],
      timers = [''p1'' \<mapsto> 5000],
      spawned = [(''echo'', [''hi''], ''/srv/app'')], killed = []\<rparr> ''p1''
     = Some (example_proc\<lparr>output' := ''hi'', error := ''warn''\<rparr>)
   \<and> running (example_proc\<lparr>output' := ''hi'', error := ''warn''\<rparr>)
   \<and> call_tool [''/srv''] ''/srv'' (ReadOutputCall ''p1'' (Some True)) example_reader
        \<lparr>runningProcesses = [''p1'' \<mapsto> example_proc\<lparr>output' := ''hi'', error := ''warn''\<rparr>],
         timers = [''p1'' \<mapsto> 5000],
         spawned = [(''echo'', [''hi''], ''/srv/app'')], killed = []\<rparr> =
       (\<lparr>content = Report
           \<lparr>report_processId = ''p1'', report_command = ''echo hi'',
            report_status = ''Running'', report_workingDir = ''/srv/app'',
            report_runtime = 6, report_stdout = ''hi'', report_stderr = ''warn''\<rparr>,
         isError = False\<rparr>,
        \<lparr>runningProcesses = [''p1'' \<mapsto> example_proc\<lparr>output' := ''hi'', error := ''warn''\<rparr>],
         timers = [''p1'' \<mapsto> 5000],
         spawned = [(''echo'', [''hi''], ''/srv/app'')], killed = []\<rparr>)"
proof -
  let ?p = "example_proc\<lparr>output' := ''hi'', error := ''warn''\<rparr>"
  let ?s = "\<lparr>runningProcesses = [''p1'' \<mapsto> ?p], timers = [''p1'' \<mapsto> 5000],
       spawned = [(''echo'', [''hi''], ''/srv/app'')], killed = []\<rparr>"
  have h1: "runningProcesses ?s ''p1'' = Some ?p" by simp
  have h2: "running ?p" by (simp add: example_proc_def)
  have f: "command ?p = ''echo hi''" "workingDir ?p = ''/srv/app''" "startTime ?p = 1000"
    "output' ?p = ''hi''" "error ?p = ''warn''" "date_now example_reader = 7001"
    by (simp_all add: example_proc_def example_reader_def)
  from clear_read_of_running_process [OF h1 h2, where dirs = "[''/srv'']" and cwd = "''/srv''"
      and w = example_reader and clear = None and w' = example_reader]
  have "call_tool [''/srv''] ''/srv'' (ReadOutputCall ''p1'' (Some True)) example_reader ?s =
       (\<lparr>content = Report
           \<lparr>report_processId = ''p1'', report_command = ''echo hi'',
            report_status = ''Running'', report_workingDir = ''/srv/app'',
            report_runtime = 6, report_stdout = ''hi'', report_stderr = ''warn''\<rparr>,
         isError = False\<rparr>, ?s)"
    by (simp only: f) simp
  then show ?thesis using h1 h2 by blast
qed

subsection \<open>The running flag and the timeout\<close>






text \<open>
  Claim C10. A call of \<^verbatim>\<open>read_output\<close> without clearing (the argument absent or
  false) leaves the whole server state as it was, and so does a call for an id that is
  not in the table, whatever its clear argument; the latter is answered with the
  not-found error result. No entry is inserted, removed or changed.
\<close>

theorem read_leaves_server_unchanged:
  "snd (call_tool dirs cwd (ReadOutputCall pid None) w s) = s
   \<and> snd (call_tool dirs cwd (ReadOutputCall pid (Some False)) w s) = s
   \<and> (runningProcesses s pid = None \<longrightarrow>
        call_tool dirs cwd (ReadOutputCall pid clear) w s =
          (\<lparr>content = NoProcessFound pid, isError = True\<rparr>, s))"
  by (simp add: read_output_no_clear read_output_absent)

text \<open>
  The theorem of C10 for a clearing read of an id that was never started, while the
  example command is in the table.
\<close>

theorem read_leaves_server_unchanged_witness:
  "runningProcesses (run [''/srv''] ''/srv'' [example_start] init_server) ''p9'' = None
   \<and> call_tool [''/srv''] ''/srv'' (ReadOutputCall ''p9'' (Some True)) example_world
        (run [''/srv''] ''/srv'' [example_start] init_server) =
          (\<lparr>content = NoProcessFound ''p9'', isError = True\<rparr>,
           run [''/srv''] ''/srv'' [example_start] init_server)"
proof -
  have "runningProcesses (run [''/srv''] ''/srv'' [example_start] init_server) ''p9'' = None"
    by (simp only: example_started) simp
  then show ?thesis
    using read_leaves_server_unchanged [of "[''/srv'']" "''/srv''" "''p9''" example_world
        "run [''/srv''] ''/srv'' [example_start] init_server" "Some True"]
    by (simp del: run.simps call_tool.simps)
qed

end
